theory Spec2Isabelle
  imports Main
begin

section \<open>Shallow embedding of cmd/podman/search.go\<close>

subsection \<open>Constants and data\<close>

definition descriptionTruncLength :: nat where
  "descriptionTruncLength = 44"

definition maxQueries :: int where
  "maxQueries = 25"

text \<open>Go's \<open>int\<close> is modelled as \<open>int\<close>: the program only compares and copies these
  values, the single place where the machine range matters is \<open>strconv.Atoi\<close>, which
  rejects values outside the 64-bit range (written out in \<open>Atoi\<close> below).\<close>

datatype error =
    InvalidStarsFilter string
  | IncorrectStarsValue string
  | InvalidFilterType string
  | RegistryFailure string
  | WriterFailure string
  | IndexOutOfRange

text \<open>\<open>docker.SearchResult\<close>, the fields the command reads.\<close>

record SearchResult =
  Name :: string
  Description :: string
  StarCount :: int
  IsOfficial :: bool
  IsAutomated :: bool

text \<open>\<open>searchParams\<close>: one line of output. Its fields carry the prefix \<open>p\<close>, since
  \<open>Name\<close> and \<open>Description\<close> are fields of \<open>SearchResult\<close> as well.\<close>

record searchParams =
  pIndex :: string
  pName :: string
  pDescription :: string
  pStars :: int
  pOfficial :: string
  pAutomated :: string

datatype OptionalBool = OptionalBoolUndefined | OptionalBoolTrue | OptionalBoolFalse

record searchOpts =
  filter' :: "string list"
  limit :: int
  noTrunc :: bool
  format :: string
  authfile :: string
  insecureSkipTLSVerify :: OptionalBool

text \<open>\<open>searchFilterParams\<close>: the two \<open>*bool\<close> fields are \<open>None\<close> for a nil pointer.\<close>

record searchFilterParams =
  stars :: int
  isAutomated :: "bool option"
  isOfficial :: "bool option"

subsection \<open>The functions of Go's \<open>strings\<close> and \<open>strconv\<close> that the command calls\<close>

text \<open>\<open>strings.Split(s, sep)\<close> for a one-byte separator: every separator cuts, so the
  result has one more element than \<open>s\<close> has separators and is never empty.\<close>

fun Split :: "string \<Rightarrow> char \<Rightarrow> string list" where
  "Split [] sep = [[]]"
| "Split (c # cs) sep =
     (if c = sep then [] # Split cs sep
      else (case Split cs sep of [] \<Rightarrow> [[c]] | w # ws \<Rightarrow> (c # w) # ws))"

text \<open>\<open>strings.Join(elems, sep)\<close>.\<close>

fun Join :: "string list \<Rightarrow> string \<Rightarrow> string" where
  "Join [] sep = []"
| "Join [a] sep = a"
| "Join (a # b # rest) sep = a @ sep @ Join (b # rest) sep"

text \<open>\<open>strings.Replace(s, old, new, -1)\<close> for one-byte \<open>old\<close> and \<open>new\<close>.\<close>

definition Replace :: "string \<Rightarrow> char \<Rightarrow> char \<Rightarrow> string" where
  "Replace s old new = map (\<lambda>c. if c = old then new else c) s"

text \<open>\<open>strings.Contains(s, substr)\<close> for a one-byte \<open>substr\<close>.\<close>

definition Contains :: "string \<Rightarrow> char \<Rightarrow> bool" where
  "Contains s c = (c \<in> set s)"

definition isDigit :: "char \<Rightarrow> bool" where
  "isDigit c = (48 \<le> (of_char c :: nat) \<and> (of_char c :: nat) \<le> 57)"

definition digitVal :: "char \<Rightarrow> int" where
  "digitVal c = int (of_char c) - 48"

text \<open>What \<open>strconv.Atoi\<close> reads after the optional sign, and the number its digits
  denote (\<open>n = n*10 + digit\<close>, from the left).\<close>

definition afterSign :: "string \<Rightarrow> string" where
  "afterSign s = (case s of [] \<Rightarrow> [] | c # cs \<Rightarrow> if c = CHR ''-'' \<or> c = CHR ''+'' then cs else s)"

definition decimal :: "string \<Rightarrow> int" where
  "decimal ds = foldl (\<lambda>a c. a * 10 + digitVal c) 0 ds"

text \<open>\<open>strconv.Atoi\<close> on a 64-bit platform: an optional sign, then at least one decimal
  digit and nothing else, and a value that fits \<open>int\<close>; \<open>None\<close> stands for the
  \<open>*NumError\<close> it returns otherwise (a syntax error or a range error).\<close>

definition Atoi :: "string \<Rightarrow> int option" where
  "Atoi s =
     (let body = afterSign s;
          neg = (case s of [] \<Rightarrow> False | c # cs \<Rightarrow> c = CHR ''-'')
      in if body = [] \<or> \<not> list_all isDigit body then None
         else (let n = decimal body;
                   v = (if neg then - n else n)
               in if v < - (2 ^ 63) \<or> 2 ^ 63 - 1 < v then None else Some v))"

subsection \<open>\<open>parseSearchFilter\<close>\<close>

text \<open>The body of the loop over \<open>opts.filter\<close>: one filter expression updates the
  parameters or ends the parse with an error.\<close>

definition parseSearchFilter_step :: "string \<Rightarrow> searchFilterParams \<Rightarrow> error + searchFilterParams" where
  "parseSearchFilter_step flt fp =
     (let arr = Split flt (CHR ''='') in
      case arr of
        [] \<Rightarrow> Inl IndexOutOfRange
      | key # _ \<Rightarrow>
          if key = ''stars'' then
            (if length arr < 2 then Inl (InvalidStarsFilter flt)
             else (case Atoi (arr ! 1) of
                     None \<Rightarrow> Inl (IncorrectStarsValue (arr ! 1))
                   | Some n \<Rightarrow> Inr (fp\<lparr>stars := n\<rparr>)))
          else if key = ''is-automated'' then
            (if length arr = 2 \<and> arr ! 1 = ''false''
             then Inr (fp\<lparr>isAutomated := Some False\<rparr>)
             else Inr (fp\<lparr>isAutomated := Some True\<rparr>))
          else if key = ''is-official'' then
            (if length arr = 2 \<and> arr ! 1 = ''false''
             then Inr (fp\<lparr>isOfficial := Some False\<rparr>)
             else Inr (fp\<lparr>isOfficial := Some True\<rparr>))
          else Inl (InvalidFilterType flt))"

fun parseSearchFilter_loop :: "string list \<Rightarrow> searchFilterParams \<Rightarrow> error + searchFilterParams" where
  "parseSearchFilter_loop [] fp = Inr fp"
| "parseSearchFilter_loop (flt # rest) fp =
     (case parseSearchFilter_step flt fp of
        Inl e \<Rightarrow> Inl e
      | Inr fp' \<Rightarrow> parseSearchFilter_loop rest fp')"

definition emptyFilterParams :: searchFilterParams where
  "emptyFilterParams = \<lparr>stars = 0, isAutomated = None, isOfficial = None\<rparr>"

definition parseSearchFilter :: "searchOpts \<Rightarrow> error + searchFilterParams" where
  "parseSearchFilter opts = parseSearchFilter_loop (filter' opts) emptyFilterParams"

subsection \<open>The filter predicates\<close>

definition matchesStarFilter :: "searchFilterParams \<Rightarrow> SearchResult \<Rightarrow> bool" where
  "matchesStarFilter flt result = (StarCount result \<ge> stars flt)"

definition matchesAutomatedFilter :: "searchFilterParams \<Rightarrow> SearchResult \<Rightarrow> bool" where
  "matchesAutomatedFilter flt result =
     (case isAutomated flt of Some b \<Rightarrow> IsAutomated result = b | None \<Rightarrow> True)"

definition matchesOfficialFilter :: "searchFilterParams \<Rightarrow> SearchResult \<Rightarrow> bool" where
  "matchesOfficialFilter flt result =
     (case isOfficial flt of Some b \<Rightarrow> IsOfficial result = b | None \<Rightarrow> True)"

text \<open>The condition of line 204, the conjunction in the order the code evaluates it.\<close>

definition matchesFilters :: "searchFilterParams \<Rightarrow> SearchResult \<Rightarrow> bool" where
  "matchesFilters flt result =
     (matchesAutomatedFilter flt result \<and> matchesOfficialFilter flt result
        \<and> matchesStarFilter flt result)"

subsection \<open>\<open>getSearchOutput\<close>\<close>

text \<open>\<open>docker.SearchRegistry(ctx, sc, reg, term, limit)\<close> is the registry client, outside
  this file: it is a parameter, a function of the registry, the term and the limit (the
  system context \<open>sc\<close> is the same for every call of one search).\<close>

type_synonym searcher = "string \<Rightarrow> string \<Rightarrow> int \<Rightarrow> error + SearchResult list"

text \<open>What one run of \<open>getSearchOutput\<close> builds and does: the slice \<open>paramsArr\<close>, the
  calls of the registry client (registry, term, limit) and the errors given to
  \<open>logrus.Errorf\<close>, each in the order of the run.\<close>

record searchRun =
  paramsArr :: "searchParams list"
  queries :: "(string \<times> string \<times> int) list"
  logged :: "(string \<times> error) list"

text \<open>Lines 169 to 172: the limit given to the registry client.\<close>

definition queryLimit :: "searchOpts \<Rightarrow> int" where
  "queryLimit opts = (if limit opts \<noteq> 0 then limit opts else maxQueries)"

text \<open>Lines 184 to 188: the index shown for a registry.\<close>

definition registryIndex :: "string \<Rightarrow> string" where
  "registryIndex reg =
     (let arr = Split reg (CHR ''.'') in
      if length arr > 2 then Join (drop (length arr - 2) arr) ''.'' else reg)"

text \<open>Lines 193 to 199: the number of results of one registry that the loop visits.\<close>

definition resultLimit :: "searchOpts \<Rightarrow> SearchResult list \<Rightarrow> int" where
  "resultLimit opts results =
     (let lim0 = maxQueries;
          lim1 = (if int (length results) < lim0 then int (length results) else lim0)
      in if limit opts \<noteq> 0 \<and> limit opts < int (length results) then limit opts else lim1)"

text \<open>Lines 216 to 219: the description shown.\<close>

definition displayDescription :: "searchOpts \<Rightarrow> string \<Rightarrow> string" where
  "displayDescription opts d =
     (let description = Replace d (CHR 0x0A) (CHR '' '') in
      if length description > 44 \<and> \<not> noTrunc opts
      then take descriptionTruncLength description @ ''...''
      else description)"

text \<open>Lines 220 to 223: the name shown.\<close>

definition displayName :: "string \<Rightarrow> string \<Rightarrow> string \<Rightarrow> string" where
  "displayName reg index n =
     (if index = ''docker.io'' \<and> \<not> Contains n (CHR ''/'')
      then index @ ''/library/'' @ n
      else reg @ ''/'' @ n)"

text \<open>Lines 208 to 231: the output line of one accepted result.\<close>

definition toSearchParams :: "searchOpts \<Rightarrow> string \<Rightarrow> string \<Rightarrow> SearchResult \<Rightarrow> searchParams" where
  "toSearchParams opts reg index r =
     \<lparr>pIndex = index,
      pName = displayName reg index (Name r),
      pDescription = displayDescription opts (Description r),
      pStars = StarCount r,
      pOfficial = (if IsOfficial r then ''[OK]'' else []),
      pAutomated = (if IsAutomated r then ''[OK]'' else [])\<rparr>"

text \<open>Lines 201 to 233: \<open>for i := 0; i < limit; i++\<close> over \<open>results[i]\<close>. An index
  outside the slice is Go's run-time panic, the value \<open>Inl IndexOutOfRange\<close> here.\<close>

function resultsLoop ::
  "searchOpts \<Rightarrow> searchFilterParams \<Rightarrow> string \<Rightarrow> string \<Rightarrow> SearchResult list \<Rightarrow> int \<Rightarrow> nat
     \<Rightarrow> searchParams list \<Rightarrow> error + searchParams list" where
  "resultsLoop opts flt reg index results lim i acc =
     (if int i < lim then
        (if i < length results then
           (if length (filter' opts) > 0 \<and> \<not> matchesFilters flt (results ! i)
            then resultsLoop opts flt reg index results lim (Suc i) acc
            else resultsLoop opts flt reg index results lim (Suc i)
                   (acc @ [toSearchParams opts reg index (results ! i)]))
         else Inl IndexOutOfRange)
      else Inr acc)"
  by pat_completeness auto
termination
  by (relation "measure (\<lambda>(opts, flt, reg, index, results, lim, i, acc). nat (lim - int i))") auto

declare resultsLoop.simps [simp del]

text \<open>Lines 178 to 234: the loop over the registries.\<close>

fun registriesLoop ::
  "searcher \<Rightarrow> string \<Rightarrow> searchOpts \<Rightarrow> searchFilterParams \<Rightarrow> string list \<Rightarrow> searchRun
     \<Rightarrow> error + searchRun" where
  "registriesLoop search term opts flt [] run = Inr run"
| "registriesLoop search term opts flt (reg # regs) run =
     (let run1 = run\<lparr>queries := queries run @ [(reg, term, queryLimit opts)]\<rparr> in
      case search reg term (queryLimit opts) of
        Inl err \<Rightarrow>
          registriesLoop search term opts flt regs (run1\<lparr>logged := logged run1 @ [(reg, err)]\<rparr>)
      | Inr results \<Rightarrow>
          (case resultsLoop opts flt reg (registryIndex reg) results (resultLimit opts results) 0
                  (paramsArr run1) of
             Inl e \<Rightarrow> Inl e
           | Inr arr \<Rightarrow> registriesLoop search term opts flt regs (run1\<lparr>paramsArr := arr\<rparr>)))"

definition emptyRun :: searchRun where
  "emptyRun = \<lparr>paramsArr = [], queries = [], logged = []\<rparr>"

text \<open>The whole run, with what it did.\<close>

definition getSearchOutput_run ::
  "searcher \<Rightarrow> string \<Rightarrow> string list \<Rightarrow> searchOpts \<Rightarrow> searchFilterParams \<Rightarrow> error + searchRun" where
  "getSearchOutput_run search term registries opts flt =
     registriesLoop search term opts flt registries emptyRun"

text \<open>The value \<open>getSearchOutput\<close> returns: \<open>Inr paramsArr\<close> stands for
  \<open>(paramsArr, nil)\<close>.\<close>

definition getSearchOutput ::
  "searcher \<Rightarrow> string \<Rightarrow> string list \<Rightarrow> searchOpts \<Rightarrow> searchFilterParams
     \<Rightarrow> error + searchParams list" where
  "getSearchOutput search term registries opts flt =
     (case getSearchOutput_run search term registries opts flt of
        Inl e \<Rightarrow> Inl e
      | Inr run \<Rightarrow> Inr (paramsArr run))"

subsection \<open>\<open>generateSearchOutput\<close>\<close>

text \<open>\<open>formats.Writer(out).Out()\<close> is the renderer, outside this file: it is a
  parameter, a function of the records and the template that returns its error, if any.\<close>

type_synonym writer = "searchParams list \<Rightarrow> string \<Rightarrow> error option"

definition generateSearchOutput ::
  "writer \<Rightarrow> searcher \<Rightarrow> string \<Rightarrow> string list \<Rightarrow> searchOpts \<Rightarrow> searchFilterParams
     \<Rightarrow> error option" where
  "generateSearchOutput out search term registries opts flt =
     (case getSearchOutput search term registries opts flt of
        Inl err \<Rightarrow> Some err
      | Inr searchOutput \<Rightarrow>
          if length searchOutput = 0 then None else out searchOutput (format opts))"

subsection \<open>\<open>genSearchFormat\<close>\<close>

text \<open>\<open>strings.Replace(format, `\\t`, "\\t", -1)\<close>: every backslash followed by \<open>t\<close>
  becomes a tab, from the left.\<close>

fun replaceBackslashT :: "string \<Rightarrow> string" where
  "replaceBackslashT (a # b # rest) =
     (if a = CHR 0x5C \<and> b = CHR ''t'' then CHR 0x09 # replaceBackslashT rest
      else a # replaceBackslashT (b # rest))"
| "replaceBackslashT s = s"

text \<open>Lines 124 to 131: the template given to the renderer, the one of the caller or the
  default table.\<close>

definition genSearchFormat :: "string \<Rightarrow> string" where
  "genSearchFormat fmt =
     (if fmt \<noteq> [] then replaceBackslashT fmt
      else ''table {{.Index}}'' @ [CHR 0x09] @ ''{{.Name}}'' @ [CHR 0x09] @ ''{{.Description}}''
           @ [CHR 0x09] @ ''{{.Stars}}'' @ [CHR 0x09] @ ''{{.Official}}'' @ [CHR 0x09]
           @ ''{{.Automated}}'' @ [CHR 0x09])"

subsection \<open>Notions used to state the properties\<close>

text \<open>The key of a filter expression, the text before its first \<open>=\<close>, and its value as
  the code reads it: the text after the first \<open>=\<close> up to the second \<open>=\<close>, or up to the
  end when there is no second one. Both are written on the expression itself, not through
  \<open>Split\<close>.\<close>

definition filterKey :: "string \<Rightarrow> string" where
  "filterKey flt = takeWhile (\<lambda>c. c \<noteq> CHR ''='') flt"

definition filterValue :: "string \<Rightarrow> string" where
  "filterValue flt =
     takeWhile (\<lambda>c. c \<noteq> CHR ''='') (tl (dropWhile (\<lambda>c. c \<noteq> CHR ''='') flt))"

text \<open>The value of a filter expression as the specification reads it: all the text after
  the first \<open>=\<close>.\<close>

definition textAfterFirstEq :: "string \<Rightarrow> string" where
  "textAfterFirstEq flt = tl (dropWhile (\<lambda>c. c \<noteq> CHR ''='') flt)"

text \<open>A result is accepted when line 202 to 206 do not skip it.\<close>

definition accepted :: "searchOpts \<Rightarrow> searchFilterParams \<Rightarrow> SearchResult \<Rightarrow> bool" where
  "accepted opts flt r = (\<not> (length (filter' opts) > 0 \<and> \<not> matchesFilters flt r))"

text \<open>The output lines of one registry that answered with \<open>results\<close>.\<close>

definition registryRecords ::
  "searchOpts \<Rightarrow> searchFilterParams \<Rightarrow> string \<Rightarrow> SearchResult list \<Rightarrow> searchParams list" where
  "registryRecords opts flt reg results =
     map (toSearchParams opts reg (registryIndex reg))
       (filter (accepted opts flt) (take (nat (resultLimit opts results)) results))"

text \<open>The output lines and the logged failure of one registry of the search.\<close>

definition searchRecords ::
  "searcher \<Rightarrow> string \<Rightarrow> searchOpts \<Rightarrow> searchFilterParams \<Rightarrow> string \<Rightarrow> searchParams list" where
  "searchRecords search term opts flt reg =
     (case search reg term (queryLimit opts) of
        Inl err \<Rightarrow> []
      | Inr results \<Rightarrow> registryRecords opts flt reg results)"

definition searchFailures ::
  "searcher \<Rightarrow> string \<Rightarrow> searchOpts \<Rightarrow> string \<Rightarrow> (string \<times> error) list" where
  "searchFailures search term opts reg =
     (case search reg term (queryLimit opts) of
        Inl err \<Rightarrow> [(reg, err)]
      | Inr results \<Rightarrow> [])"

subsection \<open>Concrete inputs\<close>

definition exResult :: SearchResult where
  "exResult = \<lparr>Name = ''alpine'', Description = ''A minimal image'', StarCount = 5,
               IsOfficial = True, IsAutomated = False\<rparr>"

text \<open>The options of a search without flags, as \<open>searchCmd\<close> builds them.\<close>

definition exOpts :: searchOpts where
  "exOpts = \<lparr>filter' = [], limit = 0, noTrunc = False, format = genSearchFormat [],
             authfile = [], insecureSkipTLSVerify = OptionalBoolUndefined\<rparr>"

text \<open>Ten results, with 0 to 9 stars in this order.\<close>

definition exTen :: "SearchResult list" where
  "exTen = map (\<lambda>n. exResult\<lparr>StarCount := n\<rparr>) [0, 1, 2, 3, 4, 5, 6, 7, 8, 9]"

text \<open>A registry client: one registry is down, one answers with 40 results whatever the
  limit, every other one with the ten results above.\<close>

definition exSearch :: searcher where
  "exSearch reg term lim =
     (if reg = ''down.example.com'' then Inl (RegistryFailure ''connection refused'')
      else if reg = ''big.example.com'' then Inr (replicate 40 exResult)
      else Inr exTen)"

text \<open>The output line of \<open>exResult\<close> with \<open>n\<close> stars, under an index and a name.\<close>

definition exLine :: "string \<Rightarrow> string \<Rightarrow> int \<Rightarrow> searchParams" where
  "exLine index name n =
     \<lparr>pIndex = index, pName = name, pDescription = ''A minimal image'', pStars = n,
      pOfficial = ''[OK]'', pAutomated = []\<rparr>"

text \<open>The renderer, as far as the inputs below need it: Go's \<open>text/template\<close> cannot
  parse the template \<open>{{\<close>, an action that is never closed, and \<open>Out()\<close> returns that
  error; the default table renders without error.\<close>

definition exWriter :: writer where
  "exWriter out tpl =
     (if tpl = ''{{'' then Some (WriterFailure ''template: image:1: unclosed action'') else None)"

text \<open>A description of 45 bytes with a newline at position 10.\<close>

definition exDescription :: string where
  "exDescription = ''0123456789'' @ [CHR 0x0A] @ ''abcdefghijklmnopqrstuvwxyzABCDEFGH''"

text \<open>Options whose filters repeat two keys.\<close>

definition exFilterOpts :: searchOpts where
  "exFilterOpts = exOpts\<lparr>filter' := [''stars=3'', ''is-official'', ''stars=7'', ''is-official=false'']\<rparr>"

section \<open>Properties\<close>

subsection \<open>The string functions\<close>

lemma Split_not_Nil: "Split s c \<noteq> []"
  by (induction s) (auto split: list.splits)

lemma Split_length: "length (Split s c) = Suc (length (filter (\<lambda>x. x = c) s))"
proof (induction s)
  case Nil
  show ?case by simp
next
  case (Cons x xs)
  then show ?case using Split_not_Nil [of xs c]
    by (cases "Split xs c") auto
qed

lemma Split_no_sep: "c \<notin> set s \<Longrightarrow> Split s c = [s]"
  by (induction s) auto

lemma Split_with_sep: "c \<in> set s \<Longrightarrow> 2 \<le> length (Split s c)"
proof -
  assume "c \<in> set s"
  then have "filter (\<lambda>x. x = c) s \<noteq> []" by (auto simp add: filter_empty_conv)
  then have "Suc 0 \<le> length (filter (\<lambda>x. x = c) s)"
    by (cases "filter (\<lambda>x. x = c) s") simp_all
  then show ?thesis by (simp add: Split_length)
qed

lemma Split_unfold:
  "Split s c = takeWhile (\<lambda>x. x \<noteq> c) s
     # (if c \<in> set s then Split (tl (dropWhile (\<lambda>x. x \<noteq> c) s)) c else [])"
proof (induction s)
  case Nil
  show ?case by simp
next
  case (Cons x xs)
  then show ?case using Split_not_Nil [of xs c]
    by (cases "Split xs c") (auto split: if_splits)
qed

lemma Split_hd: "hd (Split s c) = takeWhile (\<lambda>x. x \<noteq> c) s"
  by (subst Split_unfold) simp

lemma Split_second:
  "c \<in> set s \<Longrightarrow> Split s c ! 1 = takeWhile (\<lambda>x. x \<noteq> c) (tl (dropWhile (\<lambda>x. x \<noteq> c) s))"
  by (subst Split_unfold) (simp add: Split_hd [symmetric] hd_conv_nth Split_not_Nil)

lemma Join_Split: "Join (Split s c) [c] = s"
proof (induction s)
  case Nil
  show ?case by simp
next
  case (Cons x xs)
  show ?case
  proof (cases "Split xs c")
    case Nil
    then show ?thesis using Split_not_Nil [of xs c] by simp
  next
    case (Cons w ws)
    then show ?thesis using Cons.IH by (cases ws) auto
  qed
qed

lemma Atoi_range: "Atoi v = Some n \<Longrightarrow> - (2 ^ 63) \<le> n \<and> n < 2 ^ 63"
  by (auto simp add: Atoi_def Let_def split: if_splits)

lemma Atoi_value:
  "Atoi v = Some n \<Longrightarrow>
     n = (if hd v = CHR ''-'' then - decimal (afterSign v) else decimal (afterSign v))"
  by (cases v) (auto simp add: Atoi_def afterSign_def Let_def split: if_splits)

lemma filterKey_Split:
  "filterKey flt = (case Split flt (CHR ''='') of [] \<Rightarrow> [] | key # _ \<Rightarrow> key)"
  using Split_hd [of flt "CHR ''=''"] Split_not_Nil [of flt "CHR ''=''"]
  by (cases "Split flt (CHR ''='')") (simp_all add: filterKey_def)

lemma filterValue_Split:
  "CHR ''='' \<in> set flt \<Longrightarrow> Split flt (CHR ''='') ! 1 = filterValue flt"
  using Split_second [of "CHR ''=''" flt] by (simp add: filterValue_def)

lemma Atoi_syntax:
  "Atoi v = Some n \<Longrightarrow> afterSign v \<noteq> [] \<and> list_all isDigit (afterSign v)"
  by (auto simp add: Atoi_def Let_def split: if_splits)

lemma Atoi_nonnumeric:
  "afterSign v = [] \<or> \<not> list_all isDigit (afterSign v) \<Longrightarrow> Atoi v = None"
  by (auto simp add: Atoi_def Let_def)

subsection \<open>Parsing the filter expressions\<close>

lemma step_stars:
  "filterKey flt = ''stars'' \<Longrightarrow>
   parseSearchFilter_step flt fp =
     (if length (Split flt (CHR ''='')) < 2 then Inl (InvalidStarsFilter flt)
      else (case Atoi (Split flt (CHR ''='') ! 1) of
              None \<Rightarrow> Inl (IncorrectStarsValue (Split flt (CHR ''='') ! 1))
            | Some n \<Rightarrow> Inr (fp\<lparr>stars := n\<rparr>)))"
  by (cases "Split flt (CHR ''='')")
     (auto simp add: parseSearchFilter_step_def filterKey_Split Let_def split: option.splits)

lemma step_stars_bare:
  "filterKey flt = ''stars'' \<Longrightarrow> CHR ''='' \<notin> set flt \<Longrightarrow>
     parseSearchFilter_step flt fp = Inl (InvalidStarsFilter flt)"
  by (simp add: step_stars Split_no_sep)

lemma step_stars_value:
  "filterKey flt = ''stars'' \<Longrightarrow> CHR ''='' \<in> set flt \<Longrightarrow>
     parseSearchFilter_step flt fp =
       (case Atoi (Split flt (CHR ''='') ! 1) of
          None \<Rightarrow> Inl (IncorrectStarsValue (Split flt (CHR ''='') ! 1))
        | Some n \<Rightarrow> Inr (fp\<lparr>stars := n\<rparr>))"
  using Split_with_sep [of "CHR ''=''" flt] by (simp add: step_stars)

lemma step_stars_filterValue:
  assumes k: "filterKey flt = ''stars''" and e: "CHR ''='' \<in> set flt"
  shows "parseSearchFilter_step flt fp =
       (case Atoi (filterValue flt) of
          None \<Rightarrow> Inl (IncorrectStarsValue (filterValue flt))
        | Some n \<Rightarrow> Inr (fp\<lparr>stars := n\<rparr>))"
  using step_stars_value [OF k e, of fp] unfolding filterValue_Split [OF e] by simp

lemma filterValue_Split0:
  "CHR ''='' \<in> set flt \<Longrightarrow> Split flt (CHR ''='') ! Suc 0 = filterValue flt"
  using filterValue_Split [of flt] by simp

lemma filterKey_no_eq: "CHR ''='' \<notin> set (filterKey flt)"
  by (auto simp add: filterKey_def dest: set_takeWhileD)

lemma Split_key_false:
  "CHR ''='' \<notin> set k \<Longrightarrow> Split (k @ ''=false'') (CHR ''='') = [k, ''false'']"
  by (induction k) auto

lemma bool_key_false:
  assumes k: "filterKey flt = k"
  shows "(length (Split flt (CHR ''='')) = 2 \<and> Split flt (CHR ''='') ! Suc 0 = ''false'')
           = (flt = k @ ''=false'')"
proof
  assume h: "length (Split flt (CHR ''='')) = 2 \<and> Split flt (CHR ''='') ! Suc 0 = ''false''"
  then obtain a b where ab: "Split flt (CHR ''='') = [a, b]"
    by (cases "Split flt (CHR ''='')"; cases "tl (Split flt (CHR ''=''))") auto
  with h have b: "b = ''false''" by simp
  from ab k have a: "a = k" by (simp add: filterKey_Split)
  have "Join (Split flt (CHR ''='')) [CHR ''=''] = flt" by (rule Join_Split)
  then show "flt = k @ ''=false''" by (simp add: ab a b)
next
  assume f: "flt = k @ ''=false''"
  have "CHR ''='' \<notin> set k" using filterKey_no_eq [of flt] k by simp
  then have "Split flt (CHR ''='') = [k, ''false'']"
    unfolding f by (rule Split_key_false)
  then show "length (Split flt (CHR ''='')) = 2 \<and> Split flt (CHR ''='') ! Suc 0 = ''false''"
    by simp
qed

lemma step_unfold:
  "parseSearchFilter_step flt fp =
     (if filterKey flt = ''stars'' then
        (if length (Split flt (CHR ''='')) < 2 then Inl (InvalidStarsFilter flt)
         else (case Atoi (Split flt (CHR ''='') ! 1) of
                 None \<Rightarrow> Inl (IncorrectStarsValue (Split flt (CHR ''='') ! 1))
               | Some n \<Rightarrow> Inr (fp\<lparr>stars := n\<rparr>)))
      else if filterKey flt = ''is-automated'' then
        Inr (fp\<lparr>isAutomated :=
               Some (\<not> (length (Split flt (CHR ''='')) = 2 \<and> Split flt (CHR ''='') ! 1 = ''false''))\<rparr>)
      else if filterKey flt = ''is-official'' then
        Inr (fp\<lparr>isOfficial :=
               Some (\<not> (length (Split flt (CHR ''='')) = 2 \<and> Split flt (CHR ''='') ! 1 = ''false''))\<rparr>)
      else Inl (InvalidFilterType flt))"
proof (cases "Split flt (CHR ''='')")
  case Nil
  then show ?thesis using Split_not_Nil [of flt "CHR ''=''"] by simp
next
  case (Cons key rest)
  then have k: "filterKey flt = key" by (simp add: filterKey_Split)
  show ?thesis
    unfolding parseSearchFilter_step_def k Let_def Cons by simp
qed

lemma step_official:
  assumes "filterKey flt = ''is-official''"
  shows "parseSearchFilter_step flt fp
           = Inr (fp\<lparr>isOfficial := Some (flt \<noteq> ''is-official=false'')\<rparr>)"
  using bool_key_false [OF assms] by (simp add: step_unfold assms)

lemma step_automated:
  assumes "filterKey flt = ''is-automated''"
  shows "parseSearchFilter_step flt fp
           = Inr (fp\<lparr>isAutomated := Some (flt \<noteq> ''is-automated=false'')\<rparr>)"
  using bool_key_false [OF assms] by (simp add: step_unfold assms)

lemma step_key_known:
  "parseSearchFilter_step flt fp = Inr fp' \<Longrightarrow>
     filterKey flt = ''stars'' \<or> filterKey flt = ''is-official'' \<or> filterKey flt = ''is-automated''"
  by (simp add: step_unfold split: if_splits)

lemma step_stars_ok:
  assumes k: "filterKey flt = ''stars''" and s: "parseSearchFilter_step flt fp = Inr fp'"
  shows "CHR ''='' \<in> set flt \<and> Atoi (filterValue flt) = Some (stars fp')"
proof -
  have e: "CHR ''='' \<in> set flt"
  proof (rule ccontr)
    assume "CHR ''='' \<notin> set flt"
    with k s show False by (simp add: step_stars_bare)
  qed
  from s have "(case Atoi (filterValue flt) of
          None \<Rightarrow> Inl (IncorrectStarsValue (filterValue flt))
        | Some n \<Rightarrow> Inr (fp\<lparr>stars := n\<rparr>)) = Inr fp'"
    using step_stars_value [OF k e, of fp] unfolding filterValue_Split [OF e] by simp
  then have "Atoi (filterValue flt) = Some (stars fp')"
    by (cases "Atoi (filterValue flt)") auto
  with e show ?thesis by simp
qed

lemma step_other_stars:
  "filterKey flt \<noteq> ''stars'' \<Longrightarrow> parseSearchFilter_step flt fp = Inr fp' \<Longrightarrow> stars fp' = stars fp"
  by (cases "Split flt (CHR ''='')")
     (auto simp add: parseSearchFilter_step_def filterKey_Split Let_def split: if_splits sum.splits option.splits)

lemma step_other_official:
  "filterKey flt \<noteq> ''is-official'' \<Longrightarrow> parseSearchFilter_step flt fp = Inr fp'
     \<Longrightarrow> isOfficial fp' = isOfficial fp"
  by (cases "Split flt (CHR ''='')")
     (auto simp add: parseSearchFilter_step_def filterKey_Split Let_def split: if_splits sum.splits option.splits)

lemma step_other_automated:
  "filterKey flt \<noteq> ''is-automated'' \<Longrightarrow> parseSearchFilter_step flt fp = Inr fp'
     \<Longrightarrow> isAutomated fp' = isAutomated fp"
  by (cases "Split flt (CHR ''='')")
     (auto simp add: parseSearchFilter_step_def filterKey_Split Let_def split: if_splits sum.splits option.splits)

lemma loop_append:
  "parseSearchFilter_loop (xs @ ys) fp =
     (case parseSearchFilter_loop xs fp of Inl e \<Rightarrow> Inl e | Inr fp' \<Rightarrow> parseSearchFilter_loop ys fp')"
  by (induction xs arbitrary: fp) (auto split: sum.splits)

lemma loop_keeps_stars:
  "\<forall>g \<in> set fs. filterKey g \<noteq> ''stars'' \<Longrightarrow> parseSearchFilter_loop fs fp = Inr fp'
     \<Longrightarrow> stars fp' = stars fp"
proof (induction fs arbitrary: fp)
  case Nil
  then show ?case by simp
next
  case (Cons g fs)
  then show ?case
    by (auto split: sum.splits dest: step_other_stars)
qed

lemma loop_keeps_official:
  "\<forall>g \<in> set fs. filterKey g \<noteq> ''is-official'' \<Longrightarrow> parseSearchFilter_loop fs fp = Inr fp'
     \<Longrightarrow> isOfficial fp' = isOfficial fp"
proof (induction fs arbitrary: fp)
  case Nil
  then show ?case by simp
next
  case (Cons g fs)
  then show ?case
    by (auto split: sum.splits dest: step_other_official)
qed

lemma loop_keeps_automated:
  "\<forall>g \<in> set fs. filterKey g \<noteq> ''is-automated'' \<Longrightarrow> parseSearchFilter_loop fs fp = Inr fp'
     \<Longrightarrow> isAutomated fp' = isAutomated fp"
proof (induction fs arbitrary: fp)
  case Nil
  then show ?case by simp
next
  case (Cons g fs)
  then show ?case
    by (auto split: sum.splits dest: step_other_automated)
qed

lemma loop_split:
  assumes "parseSearchFilter_loop (pre @ [flt] @ post) fp = Inr fp'"
  obtains a b where "parseSearchFilter_loop pre fp = Inr a"
    and "parseSearchFilter_step flt a = Inr b"
    and "parseSearchFilter_loop post b = Inr fp'"
  using assms by (auto simp add: loop_append split: sum.splits)

lemma loop_error_inside:
  assumes "\<And>fp. \<exists>e. parseSearchFilter_step flt fp = Inl e"
  shows "\<exists>e. parseSearchFilter_loop (pre @ [flt] @ post) fp = Inl e"
proof (cases "parseSearchFilter_loop pre fp")
  case (Inl e)
  then show ?thesis by (simp add: loop_append)
next
  case (Inr a)
  from assms [of a] obtain e where "parseSearchFilter_step flt a = Inl e" by blast
  with Inr show ?thesis by (simp add: loop_append)
qed

subsection \<open>The two loops of \<open>getSearchOutput\<close>\<close>

lemma resultsLoop_take:
  "lim \<le> int (length results) \<Longrightarrow>
   resultsLoop opts flt reg index results lim i acc =
     Inr (acc @ map (toSearchParams opts reg index)
                  (filter (accepted opts flt) (take (nat lim - i) (drop i results))))"
proof (induction opts flt reg index results lim i acc rule: resultsLoop.induct)
  case (1 opts flt reg index results lim i acc)
  show ?case
  proof (cases "int i < lim")
    case False
    then have "nat lim - i = 0" by simp
    with False show ?thesis by (simp add: resultsLoop.simps)
  next
    case True
    with "1.prems" have il: "i < length results" by simp
    from True have "nat lim - i = Suc (nat lim - Suc i)" by simp
    then have tk: "take (nat lim - i) (drop i results)
        = results ! i # take (nat lim - Suc i) (drop (Suc i) results)"
      using il by (simp add: Cons_nth_drop_Suc [symmetric])
    show ?thesis
    proof (cases "length (filter' opts) > 0 \<and> \<not> matchesFilters flt (results ! i)")
      case skip: True
      then have na: "\<not> accepted opts flt (results ! i)" by (simp add: accepted_def)
      have "resultsLoop opts flt reg index results lim i acc
          = resultsLoop opts flt reg index results lim (Suc i) acc"
        using True il skip by (subst resultsLoop.simps) simp
      also have "\<dots> = Inr (acc @ map (toSearchParams opts reg index)
                  (filter (accepted opts flt) (take (nat lim - Suc i) (drop (Suc i) results))))"
        using "1.IH"(1) [OF True il skip "1.prems"] .
      finally show ?thesis using na by (simp add: tk)
    next
      case keep: False
      then have a: "accepted opts flt (results ! i)" by (simp add: accepted_def)
      have "resultsLoop opts flt reg index results lim i acc
          = resultsLoop opts flt reg index results lim (Suc i)
              (acc @ [toSearchParams opts reg index (results ! i)])"
        using True il keep by (subst resultsLoop.simps) auto
      also have "\<dots> = Inr ((acc @ [toSearchParams opts reg index (results ! i)])
                  @ map (toSearchParams opts reg index)
                  (filter (accepted opts flt) (take (nat lim - Suc i) (drop (Suc i) results))))"
        using "1.IH"(2) [OF True il keep "1.prems"] .
      finally show ?thesis using a by (simp add: tk)
    qed
  qed
qed

lemma resultLimit_le_length: "resultLimit opts results \<le> int (length results)"
  by (simp add: resultLimit_def Let_def maxQueries_def)

lemma resultLimit_eq:
  "resultLimit opts results =
     (if limit opts \<noteq> 0 \<and> limit opts < int (length results) then limit opts
      else min maxQueries (int (length results)))"
  by (simp add: resultLimit_def Let_def min_def)

lemma filter_all_accepted:
  "\<forall>x \<in> set xs. matchesFilters flt x \<Longrightarrow> filter (accepted opts flt) (take n xs) = take n xs"
  by (auto simp add: accepted_def dest: in_set_takeD intro!: filter_True)

lemma resultsLoop_registry:
  "resultsLoop opts flt reg (registryIndex reg) results (resultLimit opts results) 0 acc
     = Inr (acc @ registryRecords opts flt reg results)"
  using resultsLoop_take [OF resultLimit_le_length, where i = 0]
  by (simp add: registryRecords_def)

lemma registriesLoop_eq:
  "registriesLoop search term opts flt regs run =
     Inr \<lparr>paramsArr = paramsArr run @ concat (map (searchRecords search term opts flt) regs),
          queries = queries run @ map (\<lambda>reg. (reg, term, queryLimit opts)) regs,
          logged = logged run @ concat (map (searchFailures search term opts) regs)\<rparr>"
proof (induction regs arbitrary: run)
  case Nil
  show ?case by simp
next
  case (Cons reg regs)
  show ?case
  proof (cases "search reg term (queryLimit opts)")
    case (Inl err)
    then show ?thesis
      by (simp add: Cons.IH searchRecords_def searchFailures_def)
  next
    case (Inr results)
    then show ?thesis
      by (simp add: Cons.IH searchRecords_def searchFailures_def resultsLoop_registry)
  qed
qed

lemma getSearchOutput_run_eq:
  "getSearchOutput_run search term regs opts flt =
     Inr \<lparr>paramsArr = concat (map (searchRecords search term opts flt) regs),
          queries = map (\<lambda>reg. (reg, term, queryLimit opts)) regs,
          logged = concat (map (searchFailures search term opts) regs)\<rparr>"
  by (simp add: getSearchOutput_run_def registriesLoop_eq emptyRun_def)

lemma getSearchOutput_eq:
  "getSearchOutput search term regs opts flt =
     Inr (concat (map (searchRecords search term opts flt) regs))"
  by (simp add: getSearchOutput_def getSearchOutput_run_eq)

subsection \<open>The index of a registry\<close>

lemma registryIndex_docker: "registryIndex ''docker.io'' = ''docker.io''"
  by (simp add: registryIndex_def)

lemma registryIndex_fedora: "registryIndex ''registry.fedoraproject.org'' = ''fedoraproject.org''"
  by (simp add: registryIndex_def)

lemma registryIndex_quay: "registryIndex ''quay.io'' = ''quay.io''"
  by (simp add: registryIndex_def)

lemma registryIndex_big: "registryIndex ''big.example.com'' = ''example.com''"
  by (simp add: registryIndex_def)

subsection \<open>The concrete inputs\<close>

lemma exTen_length: "length exTen = 10"
  by (simp add: exTen_def)

lemma exTen_match: "\<forall>x \<in> set exTen. matchesFilters emptyFilterParams x"
  by (simp add: exTen_def matchesFilters_def matchesStarFilter_def matchesOfficialFilter_def
        matchesAutomatedFilter_def emptyFilterParams_def)

lemma exLine_docker:
  "toSearchParams (exOpts\<lparr>limit := k\<rparr>) ''docker.io'' ''docker.io'' (exResult\<lparr>StarCount := n\<rparr>)
     = exLine ''docker.io'' ''docker.io/library/alpine'' n"
  by (simp add: toSearchParams_def exLine_def exResult_def exOpts_def displayName_def
        displayDescription_def Contains_def Replace_def)

lemma exLine_other:
  "index \<noteq> ''docker.io'' \<Longrightarrow>
   toSearchParams (exOpts\<lparr>limit := k\<rparr>) reg index (exResult\<lparr>StarCount := n\<rparr>)
     = exLine index (reg @ ''/alpine'') n"
  by (simp add: toSearchParams_def exLine_def exResult_def exOpts_def displayName_def
        displayDescription_def Replace_def)

section \<open>The claims\<close>

text \<open>C1: the limit of the caller applies to each registry on its own. With a positive
  limit \<open>k\<close> and two registries that each answer with more than \<open>k\<close> results passing the
  filters, the output is the first \<open>k\<close> results of the first registry followed by the
  first \<open>k\<close> of the second, \<open>2k\<close> lines in all; with a limit of 3 and 10 results each,
  these are the first 3 of each registry, 6 lines.\<close>

theorem limit_per_registry:
  assumes pos: "0 < limit opts"
    and sA: "search regA term (limit opts) = Inr xsA" and lA: "limit opts < int (length xsA)"
    and sB: "search regB term (limit opts) = Inr xsB" and lB: "limit opts < int (length xsB)"
    and pass: "\<forall>x \<in> set xsA \<union> set xsB. matchesFilters flt x"
  shows "getSearchOutput search term [regA, regB] opts flt =
           Inr (map (toSearchParams opts regA (registryIndex regA)) (take (nat (limit opts)) xsA)
                @ map (toSearchParams opts regB (registryIndex regB)) (take (nat (limit opts)) xsB))
         \<and> length (map (toSearchParams opts regA (registryIndex regA)) (take (nat (limit opts)) xsA)
                @ map (toSearchParams opts regB (registryIndex regB)) (take (nat (limit opts)) xsB))
             = 2 * nat (limit opts)"
proof -
  have q: "queryLimit opts = limit opts" using pos by (simp add: queryLimit_def)
  have c1: "resultLimit opts xsA = limit opts" using pos lA by (simp add: resultLimit_eq)
  have c2: "resultLimit opts xsB = limit opts" using pos lB by (simp add: resultLimit_eq)
  have p1: "\<forall>x \<in> set xsA. matchesFilters flt x" using pass by simp
  have p2: "\<forall>x \<in> set xsB. matchesFilters flt x" using pass by simp
  have a1: "registryRecords opts flt regA xsA
              = map (toSearchParams opts regA (registryIndex regA)) (take (nat (limit opts)) xsA)"
    by (simp add: registryRecords_def c1 filter_all_accepted [OF p1])
  have a2: "registryRecords opts flt regB xsB
              = map (toSearchParams opts regB (registryIndex regB)) (take (nat (limit opts)) xsB)"
    by (simp add: registryRecords_def c2 filter_all_accepted [OF p2])
  have "getSearchOutput search term [regA, regB] opts flt =
           Inr (map (toSearchParams opts regA (registryIndex regA)) (take (nat (limit opts)) xsA)
                @ map (toSearchParams opts regB (registryIndex regB)) (take (nat (limit opts)) xsB))"
    by (simp add: getSearchOutput_eq searchRecords_def q sA sB a1 a2)
  moreover have "length (map (toSearchParams opts regA (registryIndex regA)) (take (nat (limit opts)) xsA)
                @ map (toSearchParams opts regB (registryIndex regB)) (take (nat (limit opts)) xsB))
             = 2 * nat (limit opts)"
  proof -
    have "nat (limit opts) \<le> length xsA" using lA pos by linarith
    moreover have "nat (limit opts) \<le> length xsB" using lB pos by linarith
    ultimately show ?thesis by (simp add: min_absorb2)
  qed
  ultimately show ?thesis by simp
qed

theorem limit_per_registry_witness:
  "0 < limit (exOpts\<lparr>limit := 3\<rparr>)
   \<and> limit (exOpts\<lparr>limit := 3\<rparr>) = 3
   \<and> exSearch ''docker.io'' ''alpine'' 3 = Inr exTen
   \<and> exSearch ''quay.io'' ''alpine'' 3 = Inr exTen
   \<and> length exTen = 10
   \<and> getSearchOutput exSearch ''alpine'' [''docker.io'', ''quay.io''] (exOpts\<lparr>limit := 3\<rparr>)
        emptyFilterParams =
       Inr [exLine ''docker.io'' ''docker.io/library/alpine'' 0,
            exLine ''docker.io'' ''docker.io/library/alpine'' 1,
            exLine ''docker.io'' ''docker.io/library/alpine'' 2,
            exLine ''quay.io'' ''quay.io/alpine'' 0,
            exLine ''quay.io'' ''quay.io/alpine'' 1,
            exLine ''quay.io'' ''quay.io/alpine'' 2]"
proof -
  have pos: "0 < limit (exOpts\<lparr>limit := 3\<rparr>)" by simp
  have s1: "exSearch ''docker.io'' ''alpine'' (limit (exOpts\<lparr>limit := 3\<rparr>)) = Inr exTen"
    by (simp add: exSearch_def)
  have s2: "exSearch ''quay.io'' ''alpine'' (limit (exOpts\<lparr>limit := 3\<rparr>)) = Inr exTen"
    by (simp add: exSearch_def)
  have l: "limit (exOpts\<lparr>limit := 3\<rparr>) < int (length exTen)" by (simp add: exTen_length)
  have pass: "\<forall>x \<in> set exTen \<union> set exTen. matchesFilters emptyFilterParams x"
    using exTen_match by simp
  have t: "take 3 exTen = [exResult\<lparr>StarCount := 0\<rparr>, exResult\<lparr>StarCount := 1\<rparr>,
                           exResult\<lparr>StarCount := 2\<rparr>]"
    by (simp add: exTen_def)
  show ?thesis
    using limit_per_registry [where search = exSearch and regA = "''docker.io''"
        and regB = "''quay.io''", OF pos s1 l s2 l pass] s1 s2 exTen_length
    by (simp add: t registryIndex_docker registryIndex_quay exLine_docker exLine_other)
qed

text \<open>C2: when the query of the first of two registries fails and the second answers,
  the output is the filtered and projected results of the second registry alone and no
  error is returned: it is the output of a search over the second registry only, and the
  failure is only logged.\<close>

theorem failed_registry_skipped:
  assumes f: "search regA term (queryLimit opts) = Inl err"
    and s: "search regB term (queryLimit opts) = Inr xs"
  shows "getSearchOutput search term [regA, regB] opts flt =
           Inr (map (toSearchParams opts regB (registryIndex regB))
                  (filter (accepted opts flt) (take (nat (resultLimit opts xs)) xs)))
         \<and> getSearchOutput search term [regA, regB] opts flt = getSearchOutput search term [regB] opts flt
         \<and> getSearchOutput_run search term [regA, regB] opts flt =
             Inr \<lparr>paramsArr = map (toSearchParams opts regB (registryIndex regB))
                                (filter (accepted opts flt) (take (nat (resultLimit opts xs)) xs)),
                  queries = [(regA, term, queryLimit opts), (regB, term, queryLimit opts)],
                  logged = [(regA, err)]\<rparr>"
  by (simp add: getSearchOutput_eq getSearchOutput_run_eq searchRecords_def searchFailures_def
        registryRecords_def f s)

theorem failed_registry_skipped_witness:
  "exSearch ''down.example.com'' ''alpine'' (queryLimit (exOpts\<lparr>limit := 2\<rparr>))
     = Inl (RegistryFailure ''connection refused'')
   \<and> exSearch ''quay.io'' ''alpine'' (queryLimit (exOpts\<lparr>limit := 2\<rparr>)) = Inr exTen
   \<and> getSearchOutput exSearch ''alpine'' [''down.example.com'', ''quay.io'']
        (exOpts\<lparr>limit := 2\<rparr>) emptyFilterParams =
       Inr [exLine ''quay.io'' ''quay.io/alpine'' 0, exLine ''quay.io'' ''quay.io/alpine'' 1]
   \<and> getSearchOutput_run exSearch ''alpine'' [''down.example.com'', ''quay.io'']
        (exOpts\<lparr>limit := 2\<rparr>) emptyFilterParams =
       Inr \<lparr>paramsArr = [exLine ''quay.io'' ''quay.io/alpine'' 0, exLine ''quay.io'' ''quay.io/alpine'' 1],
            queries = [(''down.example.com'', ''alpine'', 2), (''quay.io'', ''alpine'', 2)],
            logged = [(''down.example.com'', RegistryFailure ''connection refused'')]\<rparr>"
proof -
  have f: "exSearch ''down.example.com'' ''alpine'' (queryLimit (exOpts\<lparr>limit := 2\<rparr>))
     = Inl (RegistryFailure ''connection refused'')" by (simp add: exSearch_def)
  have s: "exSearch ''quay.io'' ''alpine'' (queryLimit (exOpts\<lparr>limit := 2\<rparr>)) = Inr exTen"
    by (simp add: exSearch_def)
  have q: "queryLimit (exOpts\<lparr>limit := 2\<rparr>) = 2" by (simp add: queryLimit_def)
  have c: "resultLimit (exOpts\<lparr>limit := 2\<rparr>) exTen = 2"
    by (simp add: resultLimit_eq exTen_length)
  have t: "take 2 exTen = [exResult\<lparr>StarCount := 0\<rparr>, exResult\<lparr>StarCount := 1\<rparr>]"
    by (simp add: exTen_def)
  have a: "accepted (exOpts\<lparr>limit := 2\<rparr>) emptyFilterParams x" for x
    by (simp add: accepted_def exOpts_def)
  show ?thesis
    using failed_registry_skipped [where search = exSearch and regA = "''down.example.com''"
        and regB = "''quay.io''" and flt = emptyFilterParams, OF f s] f s
    by (simp add: q c t a registryIndex_quay exLine_other)
qed

text \<open>C3, as the code has it: the number of results of one registry that the loop visits is
  the limit of the caller when that limit is not zero and strictly below the number of
  results, and the smaller of 25 and the number of results otherwise. It never exceeds the
  number of results, and it stays within 25 whenever the limit of the caller does; the loop
  visits exactly that many results, from the first on.\<close>

theorem result_cap:
  "resultLimit opts results =
     (if limit opts \<noteq> 0 \<and> limit opts < int (length results) then limit opts
      else min 25 (int (length results)))
   \<and> resultLimit opts results \<le> int (length results)
   \<and> resultLimit opts results \<le> max 25 (limit opts)
   \<and> (limit opts \<le> 25 \<longrightarrow> resultLimit opts results \<le> 25)
   \<and> resultsLoop opts flt reg index results (resultLimit opts results) 0 acc =
       Inr (acc @ map (toSearchParams opts reg index)
                    (filter (accepted opts flt) (take (nat (resultLimit opts results)) results)))"
proof -
  have "resultsLoop opts flt reg index results (resultLimit opts results) 0 acc =
       Inr (acc @ map (toSearchParams opts reg index)
                    (filter (accepted opts flt) (take (nat (resultLimit opts results)) results)))"
    using resultsLoop_take [OF resultLimit_le_length, where i = 0] by simp
  moreover have "resultLimit opts results =
     (if limit opts \<noteq> 0 \<and> limit opts < int (length results) then limit opts
      else min 25 (int (length results)))"
    by (simp add: resultLimit_eq maxQueries_def)
  moreover have "resultLimit opts results \<le> max 25 (limit opts)"
    by (simp add: resultLimit_eq maxQueries_def min_def max_def)
  moreover have "limit opts \<le> 25 \<longrightarrow> resultLimit opts results \<le> 25"
    by (simp add: resultLimit_eq maxQueries_def min_def)
  ultimately show ?thesis
    using resultLimit_le_length [of opts results] by blast
qed

theorem result_cap_witness:
  "resultLimit (exOpts\<lparr>limit := 3\<rparr>) exTen = 3
   \<and> limit (exOpts\<lparr>limit := 3\<rparr>) \<le> 25
   \<and> resultLimit (exOpts\<lparr>limit := 3\<rparr>) exTen \<le> 25
   \<and> resultLimit exOpts (replicate 40 exResult) = 25
   \<and> resultLimit exOpts exTen = 10
   \<and> resultsLoop (exOpts\<lparr>limit := 3\<rparr>) emptyFilterParams ''quay.io'' ''quay.io'' exTen
        (resultLimit (exOpts\<lparr>limit := 3\<rparr>) exTen) 0 [] =
       Inr [exLine ''quay.io'' ''quay.io/alpine'' 0, exLine ''quay.io'' ''quay.io/alpine'' 1,
            exLine ''quay.io'' ''quay.io/alpine'' 2]"
proof -
  have t: "take 3 exTen = [exResult\<lparr>StarCount := 0\<rparr>, exResult\<lparr>StarCount := 1\<rparr>,
                           exResult\<lparr>StarCount := 2\<rparr>]"
    by (simp add: exTen_def)
  have a: "accepted (exOpts\<lparr>limit := 3\<rparr>) emptyFilterParams x" for x
    by (simp add: accepted_def exOpts_def)
  have l0: "limit exOpts = 0" by (simp add: exOpts_def)
  have c3: "resultLimit (exOpts\<lparr>limit := 3\<rparr>) exTen = 3"
    by (simp add: resultLimit_eq exTen_length)
  show ?thesis
    using result_cap [of "exOpts\<lparr>limit := 3\<rparr>" exTen emptyFilterParams "''quay.io''" "''quay.io''" "[]"]
      result_cap [of exOpts "replicate 40 exResult" emptyFilterParams "''quay.io''" "''quay.io''" "[]"]
      result_cap [of exOpts exTen emptyFilterParams "''quay.io''" "''quay.io''" "[]"]
    by (simp add: c3 exTen_length t a l0 exLine_other)
qed

text \<open>A limit of 30 on a registry that answers with 40 results: 30 results are visited and
  shown, more than 25.\<close>

theorem result_cap_counterexample:
  "getSearchOutput exSearch ''alpine'' [''big.example.com''] (exOpts\<lparr>limit := 30\<rparr>)
     emptyFilterParams = Inr (replicate 30 (exLine ''example.com'' ''big.example.com/alpine'' 5))
   \<and> resultLimit (exOpts\<lparr>limit := 30\<rparr>) (replicate 40 exResult) = 30
   \<and> \<not> resultLimit (exOpts\<lparr>limit := 30\<rparr>) (replicate 40 exResult) \<le> 25"
proof -
  have c: "resultLimit (exOpts\<lparr>limit := 30\<rparr>) (replicate 40 exResult) = 30"
    by (simp add: resultLimit_eq)
  have a: "accepted (exOpts\<lparr>limit := 30\<rparr>) emptyFilterParams x" for x
    by (simp add: accepted_def exOpts_def)
  have e: "exResult = exResult\<lparr>StarCount := 5\<rparr>" by (simp add: exResult_def)
  have l: "toSearchParams (exOpts\<lparr>limit := 30\<rparr>) ''big.example.com'' ''example.com'' exResult
        = exLine ''example.com'' ''big.example.com/alpine'' 5"
    by (subst e) (simp add: exLine_other)
  have "getSearchOutput exSearch ''alpine'' [''big.example.com''] (exOpts\<lparr>limit := 30\<rparr>)
     emptyFilterParams = Inr (replicate 30 (exLine ''example.com'' ''big.example.com/alpine'' 5))"
    by (simp add: getSearchOutput_eq searchRecords_def registryRecords_def exSearch_def c a
          registryIndex_big l)
  with c show ?thesis by simp
qed

text \<open>C4, as the code has it: the value of a \<open>stars\<close> expression is the text after its
  first \<open>=\<close> up to its second \<open>=\<close> (or up to the end). In a list of filter expressions
  with a \<open>stars\<close> expression, a missing value (no \<open>=\<close>) or a value that
  \<open>strconv.Atoi\<close> rejects, so every value that is not an optional sign followed by
  decimal digits only, makes the whole parse an error; otherwise, when the expressions
  before it parse, this expression sets the minimum star count to the number the value
  denotes, in the 64-bit range and possibly negative.\<close>

theorem stars_filter_parse:
  assumes occ: "filter' opts = pre @ [flt] @ post" and key: "filterKey flt = ''stars''"
  shows "(CHR ''='' \<notin> set flt \<longrightarrow> (\<exists>e. parseSearchFilter opts = Inl e))
     \<and> (CHR ''='' \<in> set flt \<and> Atoi (filterValue flt) = None
          \<longrightarrow> (\<exists>e. parseSearchFilter opts = Inl e))
     \<and> (CHR ''='' \<in> set flt
          \<and> (afterSign (filterValue flt) = [] \<or> \<not> list_all isDigit (afterSign (filterValue flt)))
          \<longrightarrow> (\<exists>e. parseSearchFilter opts = Inl e))
     \<and> (\<forall>n fp. CHR ''='' \<in> set flt \<and> Atoi (filterValue flt) = Some n
              \<and> parseSearchFilter (opts\<lparr>filter' := pre\<rparr>) = Inr fp
          \<longrightarrow> parseSearchFilter (opts\<lparr>filter' := pre @ [flt]\<rparr>) = Inr (fp\<lparr>stars := n\<rparr>)
              \<and> - (2 ^ 63) \<le> n \<and> n < 2 ^ 63
              \<and> afterSign (filterValue flt) \<noteq> []
              \<and> list_all isDigit (afterSign (filterValue flt))
              \<and> n = (if hd (filterValue flt) = CHR ''-'' then - decimal (afterSign (filterValue flt))
                     else decimal (afterSign (filterValue flt))))"
proof (intro conjI impI allI)
  assume "CHR ''='' \<notin> set flt"
  then have "\<And>fp. \<exists>e. parseSearchFilter_step flt fp = Inl e"
    using key by (simp add: step_stars_bare)
  then show "\<exists>e. parseSearchFilter opts = Inl e"
    unfolding parseSearchFilter_def occ by (rule loop_error_inside)
next
  assume "CHR ''='' \<in> set flt \<and> Atoi (filterValue flt) = None"
  then have "\<And>fp. \<exists>e. parseSearchFilter_step flt fp = Inl e"
    using key by (simp add: step_stars_filterValue)
  then show "\<exists>e. parseSearchFilter opts = Inl e"
    unfolding parseSearchFilter_def occ by (rule loop_error_inside)
next
  assume h: "CHR ''='' \<in> set flt
          \<and> (afterSign (filterValue flt) = [] \<or> \<not> list_all isDigit (afterSign (filterValue flt)))"
  then have "Atoi (filterValue flt) = None" by (simp add: Atoi_nonnumeric)
  with h have "\<And>fp. \<exists>e. parseSearchFilter_step flt fp = Inl e"
    using key by (simp add: step_stars_filterValue)
  then show "\<exists>e. parseSearchFilter opts = Inl e"
    unfolding parseSearchFilter_def occ by (rule loop_error_inside)
next
  fix n fp
  assume h: "CHR ''='' \<in> set flt \<and> Atoi (filterValue flt) = Some n
              \<and> parseSearchFilter (opts\<lparr>filter' := pre\<rparr>) = Inr fp"
  then show "parseSearchFilter (opts\<lparr>filter' := pre @ [flt]\<rparr>) = Inr (fp\<lparr>stars := n\<rparr>)"
    using key by (simp add: parseSearchFilter_def loop_append step_stars_filterValue)
  from h show "- (2 ^ 63) \<le> n" using Atoi_range by blast
  from h show "n < 2 ^ 63" using Atoi_range by blast
  from h show "afterSign (filterValue flt) \<noteq> []" using Atoi_syntax by blast
  from h show "list_all isDigit (afterSign (filterValue flt))" using Atoi_syntax by blast
  from h show "n = (if hd (filterValue flt) = CHR ''-'' then - decimal (afterSign (filterValue flt))
                     else decimal (afterSign (filterValue flt)))"
    using Atoi_value by blast
qed

theorem stars_filter_parse_witness:
  "filter' (exOpts\<lparr>filter' := [''is-official'', ''stars'']\<rparr>) = [''is-official''] @ [''stars''] @ []
   \<and> filterKey ''stars'' = ''stars''
   \<and> CHR ''='' \<notin> set ''stars''
   \<and> parseSearchFilter (exOpts\<lparr>filter' := [''is-official'', ''stars'']\<rparr>)
        = Inl (InvalidStarsFilter ''stars'')
   \<and> filter' (exOpts\<lparr>filter' := [''stars=many'']\<rparr>) = [] @ [''stars=many''] @ []
   \<and> filterKey ''stars=many'' = ''stars''
   \<and> CHR ''='' \<in> set ''stars=many''
   \<and> filterValue ''stars=many'' = ''many''
   \<and> Atoi (filterValue ''stars=many'') = None
   \<and> \<not> list_all isDigit (afterSign (filterValue ''stars=many''))
   \<and> parseSearchFilter (exOpts\<lparr>filter' := [''stars=many'']\<rparr>)
        = Inl (IncorrectStarsValue ''many'')
   \<and> filter' (exOpts\<lparr>filter' := [''is-official'', ''stars=7'']\<rparr>) = [''is-official''] @ [''stars=7''] @ []
   \<and> filterKey ''stars=7'' = ''stars''
   \<and> CHR ''='' \<in> set ''stars=7''
   \<and> Atoi (filterValue ''stars=7'') = Some 7
   \<and> parseSearchFilter (exOpts\<lparr>filter' := [''is-official'']\<rparr>)
        = Inr \<lparr>stars = 0, isAutomated = None, isOfficial = Some True\<rparr>
   \<and> parseSearchFilter (exOpts\<lparr>filter' := [''is-official'', ''stars=7'']\<rparr>)
        = Inr \<lparr>stars = 7, isAutomated = None, isOfficial = Some True\<rparr>"
proof -
  have o1: "filter' (exOpts\<lparr>filter' := [''is-official'', ''stars'']\<rparr>) = [''is-official''] @ [''stars''] @ []"
    by simp
  have k1: "filterKey ''stars'' = ''stars''" by (simp add: filterKey_def)
  have b1: "CHR ''='' \<notin> set ''stars''" by simp
  have r1: "parseSearchFilter (exOpts\<lparr>filter' := [''is-official'', ''stars'']\<rparr>)
        = Inl (InvalidStarsFilter ''stars'')" by code_simp
  have o2: "filter' (exOpts\<lparr>filter' := [''stars=many'']\<rparr>) = [] @ [''stars=many''] @ []"
    by simp
  have k2: "filterKey ''stars=many'' = ''stars''" by (simp add: filterKey_def)
  have b2: "CHR ''='' \<in> set ''stars=many''" by simp
  have v2: "filterValue ''stars=many'' = ''many''" by (simp add: filterValue_def)
  have a2: "Atoi (filterValue ''stars=many'') = None" unfolding v2 by code_simp
  have d2: "\<not> list_all isDigit (afterSign (filterValue ''stars=many''))" unfolding v2 by code_simp
  have r2: "parseSearchFilter (exOpts\<lparr>filter' := [''stars=many'']\<rparr>)
        = Inl (IncorrectStarsValue ''many'')" by code_simp
  have o3: "filter' (exOpts\<lparr>filter' := [''is-official'', ''stars=7'']\<rparr>) = [''is-official''] @ [''stars=7''] @ []"
    by simp
  have k3: "filterKey ''stars=7'' = ''stars''" by (simp add: filterKey_def)
  have b3: "CHR ''='' \<in> set ''stars=7''" by simp
  have v3: "filterValue ''stars=7'' = ''7''" by (simp add: filterValue_def)
  have a3: "Atoi (filterValue ''stars=7'') = Some 7" unfolding v3 by code_simp
  have p3: "parseSearchFilter (exOpts\<lparr>filter' := [''is-official'']\<rparr>)
        = Inr \<lparr>stars = 0, isAutomated = None, isOfficial = Some True\<rparr>" by code_simp
  note t1 = stars_filter_parse [OF o1 k1]
  note t2 = stars_filter_parse [OF o2 k2]
  note t3 = stars_filter_parse [OF o3 k3]
  have r3: "parseSearchFilter (exOpts\<lparr>filter' := [''is-official'', ''stars=7'']\<rparr>)
        = Inr \<lparr>stars = 7, isAutomated = None, isOfficial = Some True\<rparr>"
    using t3 b3 a3 p3 by simp
  show ?thesis
    using t1 t2 o1 k1 b1 r1 o2 k2 b2 v2 a2 d2 r2 o3 k3 b3 a3 p3 r3 by simp
qed

text \<open>The value \<open>-5\<close> is no non-negative integer, and it is accepted; the text after the
  first \<open>=\<close> of \<open>stars=5=6\<close> is no number at all, and the expression is accepted with
  5 stars.\<close>

theorem stars_filter_counterexample:
  "parseSearchFilter (exOpts\<lparr>filter' := [''stars=-5'']\<rparr>)
     = Inr \<lparr>stars = - 5, isAutomated = None, isOfficial = None\<rparr>
   \<and> textAfterFirstEq ''stars=5=6'' = ''5=6''
   \<and> Atoi ''5=6'' = None
   \<and> parseSearchFilter (exOpts\<lparr>filter' := [''stars=5=6'']\<rparr>)
     = Inr \<lparr>stars = 5, isAutomated = None, isOfficial = None\<rparr>"
proof -
  have a: "parseSearchFilter (exOpts\<lparr>filter' := [''stars=-5'']\<rparr>)
     = Inr \<lparr>stars = - 5, isAutomated = None, isOfficial = None\<rparr>" by code_simp
  have b: "textAfterFirstEq ''stars=5=6'' = ''5=6''" by (simp add: textAfterFirstEq_def)
  have c: "Atoi ''5=6'' = None" by code_simp
  have d: "parseSearchFilter (exOpts\<lparr>filter' := [''stars=5=6'']\<rparr>)
     = Inr \<lparr>stars = 5, isAutomated = None, isOfficial = None\<rparr>" by code_simp
  from a b c d show ?thesis by simp
qed

text \<open>C5, as the code has it: every registry of the search is queried once, in order, with
  the limit of the caller when that limit is not zero and with 25 when it is zero; so a
  strictly positive limit replaces the default and a zero limit does not.\<close>

theorem query_limit_passed:
  "getSearchOutput_run search term registries opts flt =
     Inr \<lparr>paramsArr = concat (map (searchRecords search term opts flt) registries),
          queries = map (\<lambda>reg. (reg, term, if limit opts \<noteq> 0 then limit opts else 25)) registries,
          logged = concat (map (searchFailures search term opts) registries)\<rparr>
   \<and> (0 < limit opts \<longrightarrow> queryLimit opts = limit opts)
   \<and> (limit opts = 0 \<longrightarrow> queryLimit opts = 25)"
  by (simp add: getSearchOutput_run_eq queryLimit_def maxQueries_def)

theorem query_limit_passed_witness:
  "0 < limit (exOpts\<lparr>limit := 3\<rparr>)
   \<and> queryLimit (exOpts\<lparr>limit := 3\<rparr>) = 3
   \<and> limit exOpts = 0
   \<and> queryLimit exOpts = 25
   \<and> getSearchOutput_run exSearch ''alpine'' [''down.example.com''] exOpts emptyFilterParams
       = Inr \<lparr>paramsArr = [], queries = [(''down.example.com'', ''alpine'', 25)],
              logged = [(''down.example.com'', RegistryFailure ''connection refused'')]\<rparr>"
proof -
  have l0: "limit exOpts = 0" by (simp add: exOpts_def)
  show ?thesis
    using query_limit_passed [of exSearch "''alpine''" "[''down.example.com'']" exOpts emptyFilterParams]
      query_limit_passed [of exSearch "''alpine''" "[]" "exOpts\<lparr>limit := 3\<rparr>" emptyFilterParams]
    by (simp add: l0 searchRecords_def searchFailures_def exSearch_def queryLimit_def maxQueries_def)
qed

text \<open>A limit of -1 is not positive, and it is the limit the registry is queried with.\<close>

theorem query_limit_counterexample:
  "getSearchOutput_run exSearch ''alpine'' [''quay.io''] (exOpts\<lparr>limit := - 1\<rparr>) emptyFilterParams
     = Inr \<lparr>paramsArr = [], queries = [(''quay.io'', ''alpine'', - 1)], logged = []\<rparr>
   \<and> \<not> limit (exOpts\<lparr>limit := - 1\<rparr>) > 0"
  by (simp add: getSearchOutput_run_eq searchRecords_def searchFailures_def registryRecords_def
        exSearch_def queryLimit_def resultLimit_eq exTen_length)

text \<open>C6: under a registry whose index is \<open>docker.io\<close>, a name without \<open>/\<close> is shown as
  \<open>docker.io/library/\<close> followed by the name, and a name with a \<open>/\<close> as the registry
  host, \<open>/\<close> and the name; under every other registry the name shown is always the
  registry host, \<open>/\<close> and the name.\<close>

theorem qualified_name:
  "pName (toSearchParams opts reg (registryIndex reg) r) =
     (if registryIndex reg = ''docker.io''
      then (if CHR ''/'' \<in> set (Name r) then reg @ ''/'' @ Name r
            else ''docker.io'' @ ''/library/'' @ Name r)
      else reg @ ''/'' @ Name r)"
  by (simp add: toSearchParams_def displayName_def Contains_def)

theorem qualified_name_witness:
  "pName (toSearchParams exOpts ''docker.io'' (registryIndex ''docker.io'') (exResult\<lparr>Name := ''foo''\<rparr>))
     = ''docker.io/library/foo''
   \<and> pName (toSearchParams exOpts ''docker.io'' (registryIndex ''docker.io'') (exResult\<lparr>Name := ''ns/foo''\<rparr>))
     = ''docker.io/ns/foo''
   \<and> pName (toSearchParams exOpts ''registry.fedoraproject.org''
        (registryIndex ''registry.fedoraproject.org'') (exResult\<lparr>Name := ''foo''\<rparr>))
     = ''registry.fedoraproject.org/foo''"
  using qualified_name [of exOpts "''docker.io''" "exResult\<lparr>Name := ''foo''\<rparr>"]
    qualified_name [of exOpts "''docker.io''" "exResult\<lparr>Name := ''ns/foo''\<rparr>"]
    qualified_name [of exOpts "''registry.fedoraproject.org''" "exResult\<lparr>Name := ''foo''\<rparr>"]
  by (simp add: registryIndex_docker registryIndex_fedora)

text \<open>C7: the newlines of a description become single spaces (the length is measured after
  that, and is unchanged by it); with truncation on and more than 44 bytes the description
  shown is the first 44 bytes followed by \<open>...\<close>; with truncation off it is the
  collapsed description whatever its length.\<close>

theorem description_projection:
  "(\<not> noTrunc opts \<and> 44 < length (Description r) \<longrightarrow>
      pDescription (toSearchParams opts reg index r)
        = take 44 (Replace (Description r) (CHR 0x0A) (CHR '' '')) @ ''...'')
   \<and> (\<not> noTrunc opts \<and> length (Description r) \<le> 44 \<longrightarrow>
      pDescription (toSearchParams opts reg index r)
        = Replace (Description r) (CHR 0x0A) (CHR '' ''))
   \<and> (noTrunc opts \<longrightarrow>
      pDescription (toSearchParams opts reg index r)
        = Replace (Description r) (CHR 0x0A) (CHR '' ''))
   \<and> length (Replace (Description r) (CHR 0x0A) (CHR '' '')) = length (Description r)
   \<and> (\<forall>i < length (Description r).
        Replace (Description r) (CHR 0x0A) (CHR '' '') ! i
          = (if Description r ! i = CHR 0x0A then CHR '' '' else Description r ! i))"
  by (simp add: toSearchParams_def displayDescription_def Replace_def descriptionTruncLength_def)

theorem description_projection_witness:
  "\<not> noTrunc exOpts \<and> 44 < length exDescription \<and> length exDescription = 45
   \<and> pDescription (toSearchParams exOpts ''quay.io'' ''quay.io'' (exResult\<lparr>Description := exDescription\<rparr>))
       = ''0123456789 abcdefghijklmnopqrstuvwxyzABCDEFG...''
   \<and> noTrunc (exOpts\<lparr>noTrunc := True\<rparr>)
   \<and> pDescription (toSearchParams (exOpts\<lparr>noTrunc := True\<rparr>) ''quay.io'' ''quay.io''
         (exResult\<lparr>Description := exDescription\<rparr>))
       = ''0123456789 abcdefghijklmnopqrstuvwxyzABCDEFGH''
   \<and> (10::nat) < length exDescription
   \<and> Replace exDescription (CHR 0x0A) (CHR '' '') ! 10 = CHR '' ''"
proof -
  have t: "\<not> noTrunc exOpts" by (simp add: exOpts_def)
  have l: "length exDescription = 45" by (simp add: exDescription_def)
  have r: "Replace exDescription (CHR 0x0A) (CHR '' '')
             = ''0123456789 abcdefghijklmnopqrstuvwxyzABCDEFGH''"
    by (simp add: exDescription_def Replace_def)
  show ?thesis
    using description_projection [of exOpts "exResult\<lparr>Description := exDescription\<rparr>" "''quay.io''" "''quay.io''"]
      description_projection [of "exOpts\<lparr>noTrunc := True\<rparr>" "exResult\<lparr>Description := exDescription\<rparr>" "''quay.io''" "''quay.io''"]
      t l
    by (simp add: r)
qed

text \<open>C8: for a result with a star count that is not negative, the filter condition is the
  conjunction of the star threshold (inclusive), the equality of the official flag if that
  filter is set and the equality of the automated flag if that filter is set; each of the
  three holds when its filter is unset, so the empty filter parameters accept the result;
  with \<open>stars = 5\<close> a result of 5 stars matches and one of 4 does not.\<close>

theorem matches_is_conjunction:
  assumes "0 \<le> StarCount r"
  shows "matchesFilters flt r =
           (stars flt \<le> StarCount r
            \<and> (case isOfficial flt of None \<Rightarrow> True | Some b \<Rightarrow> IsOfficial r = b)
            \<and> (case isAutomated flt of None \<Rightarrow> True | Some b \<Rightarrow> IsAutomated r = b))
         \<and> (stars flt = 0 \<longrightarrow> matchesStarFilter flt r)
         \<and> (isOfficial flt = None \<longrightarrow> matchesOfficialFilter flt r)
         \<and> (isAutomated flt = None \<longrightarrow> matchesAutomatedFilter flt r)
         \<and> matchesFilters emptyFilterParams r
         \<and> (StarCount r = 5 \<longrightarrow> matchesStarFilter (flt\<lparr>stars := 5\<rparr>) r)
         \<and> (StarCount r = 4 \<longrightarrow> \<not> matchesStarFilter (flt\<lparr>stars := 5\<rparr>) r)"
  using assms
  by (auto simp add: matchesFilters_def matchesStarFilter_def matchesOfficialFilter_def
        matchesAutomatedFilter_def emptyFilterParams_def split: option.splits)

theorem matches_is_conjunction_witness:
  "0 \<le> StarCount exResult
   \<and> StarCount exResult = 5
   \<and> matchesFilters emptyFilterParams exResult
   \<and> matchesStarFilter (emptyFilterParams\<lparr>stars := 5\<rparr>) exResult
   \<and> StarCount (exResult\<lparr>StarCount := 4\<rparr>) = 4
   \<and> \<not> matchesStarFilter (emptyFilterParams\<lparr>stars := 5\<rparr>) (exResult\<lparr>StarCount := 4\<rparr>)"
proof -
  have h5: "0 \<le> StarCount exResult" by (simp add: exResult_def)
  have h4: "0 \<le> StarCount (exResult\<lparr>StarCount := 4\<rparr>)" by simp
  have e5: "StarCount exResult = 5" by (simp add: exResult_def)
  have e4: "StarCount (exResult\<lparr>StarCount := 4\<rparr>) = 4" by simp
  show ?thesis
    using matches_is_conjunction [OF h5, of emptyFilterParams]
      matches_is_conjunction [OF h4, of emptyFilterParams] h5 e5 e4
    by (simp add: emptyFilterParams_def exResult_def)
qed

text \<open>C9: when the filter expressions parse, the value a key has in the result is the one
  of its last occurrence: for an occurrence with no later expression of the same key, the
  minimum star count is the number \<open>strconv.Atoi\<close> reads in the value of a \<open>stars\<close>
  expression, and the official (automated) filter is false when the expression is exactly
  \<open>is-official=false\<close> (\<open>is-automated=false\<close>) and true otherwise; the key is one of
  these three.\<close>

theorem last_write_wins:
  assumes ok: "parseSearchFilter opts = Inr fp"
    and occ: "filter' opts = pre @ [flt] @ post"
    and last: "\<forall>g \<in> set post. filterKey g \<noteq> filterKey flt"
  shows "(filterKey flt = ''stars'' \<longrightarrow>
            CHR ''='' \<in> set flt \<and> Atoi (filterValue flt) = Some (stars fp))
     \<and> (filterKey flt = ''is-official'' \<longrightarrow> isOfficial fp = Some (flt \<noteq> ''is-official=false''))
     \<and> (filterKey flt = ''is-automated'' \<longrightarrow> isAutomated fp = Some (flt \<noteq> ''is-automated=false''))
     \<and> (filterKey flt = ''stars'' \<or> filterKey flt = ''is-official''
          \<or> filterKey flt = ''is-automated'')"
proof -
  from ok occ have "parseSearchFilter_loop (pre @ [flt] @ post) emptyFilterParams = Inr fp"
    by (simp add: parseSearchFilter_def)
  then obtain a b where a: "parseSearchFilter_loop pre emptyFilterParams = Inr a"
    and b: "parseSearchFilter_step flt a = Inr b"
    and c: "parseSearchFilter_loop post b = Inr fp"
    by (rule loop_split)
  have s: "filterKey flt = ''stars'' \<longrightarrow> stars fp = stars b"
    using last c by (auto dest: loop_keeps_stars)
  have o: "filterKey flt = ''is-official'' \<longrightarrow> isOfficial fp = isOfficial b"
    using last c by (auto dest: loop_keeps_official)
  have au: "filterKey flt = ''is-automated'' \<longrightarrow> isAutomated fp = isAutomated b"
    using last c by (auto dest: loop_keeps_automated)
  have vs: "filterKey flt = ''stars'' \<longrightarrow>
              CHR ''='' \<in> set flt \<and> Atoi (filterValue flt) = Some (stars b)"
    using b by (auto dest: step_stars_ok)
  have vo: "filterKey flt = ''is-official'' \<longrightarrow> isOfficial b = Some (flt \<noteq> ''is-official=false'')"
    using b by (auto simp add: step_official)
  have va: "filterKey flt = ''is-automated'' \<longrightarrow> isAutomated b = Some (flt \<noteq> ''is-automated=false'')"
    using b by (auto simp add: step_automated)
  have kn: "filterKey flt = ''stars'' \<or> filterKey flt = ''is-official''
          \<or> filterKey flt = ''is-automated''"
    using b by (rule step_key_known)
  show ?thesis using s o au vs vo va kn by simp
qed

theorem last_write_wins_witness:
  "parseSearchFilter exFilterOpts = Inr \<lparr>stars = 7, isAutomated = None, isOfficial = Some False\<rparr>
   \<and> filter' exFilterOpts = [''stars=3'', ''is-official''] @ [''stars=7''] @ [''is-official=false'']
   \<and> filterKey ''is-official=false'' \<noteq> filterKey ''stars=7''
   \<and> filterKey ''stars=7'' = ''stars''
   \<and> Atoi (filterValue ''stars=7'') = Some 7
   \<and> filter' exFilterOpts = [''stars=3'', ''is-official'', ''stars=7''] @ [''is-official=false''] @ []
   \<and> filterKey ''is-official=false'' = ''is-official''
   \<and> isOfficial \<lparr>stars = 7, isAutomated = None, isOfficial = Some False\<rparr> = Some False"
proof -
  have ok: "parseSearchFilter exFilterOpts = Inr \<lparr>stars = 7, isAutomated = None, isOfficial = Some False\<rparr>"
    by code_simp
  have occ: "filter' exFilterOpts = [''stars=3'', ''is-official''] @ [''stars=7''] @ [''is-official=false'']"
    by (simp add: exFilterOpts_def)
  have occ2: "filter' exFilterOpts = [''stars=3'', ''is-official'', ''stars=7''] @ [''is-official=false''] @ []"
    by (simp add: exFilterOpts_def)
  have k1: "filterKey ''stars=7'' = ''stars''" by (simp add: filterKey_def)
  have k2: "filterKey ''is-official=false'' = ''is-official''" by (simp add: filterKey_def)
  have last: "\<forall>g \<in> set [''is-official=false'']. filterKey g \<noteq> filterKey ''stars=7''"
    by (simp add: k1 k2)
  have last2: "\<forall>g \<in> set []. filterKey g \<noteq> filterKey ''is-official=false''"
    by simp
  show ?thesis
    using last_write_wins [OF ok occ last] last_write_wins [OF ok occ2 last2] ok occ occ2 k1 k2
    by simp
qed

text \<open>C10, as the code has it: \<open>getSearchOutput\<close> returns its list and a nil error for
  every term, registry list, options and filter parameters, without a run-time panic; so
  \<open>generateSearchOutput\<close> returns nil when the output is empty and otherwise exactly what
  the renderer returns.\<close>

theorem aggregation_total:
  "\<exists>out. getSearchOutput search term registries opts flt = Inr out
     \<and> generateSearchOutput w search term registries opts flt
         = (if out = [] then None else w out (format opts))"
  by (simp add: getSearchOutput_eq generateSearchOutput_def)

theorem aggregation_total_witness:
  "getSearchOutput exSearch ''alpine'' [''down.example.com''] exOpts emptyFilterParams = Inr []
   \<and> generateSearchOutput exWriter exSearch ''alpine'' [''down.example.com''] exOpts
        emptyFilterParams = None"
proof -
  have g: "getSearchOutput exSearch ''alpine'' [''down.example.com''] exOpts emptyFilterParams = Inr []"
    by (simp add: getSearchOutput_eq searchRecords_def exSearch_def)
  show ?thesis
    using aggregation_total [of exSearch "''alpine''" "[''down.example.com'']" exOpts
        emptyFilterParams exWriter] g
    by simp
qed

text \<open>A search with the format \<open>{{\<close>, a template that cannot be parsed, and one
  result: the error of the renderer reaches the caller.\<close>

theorem aggregation_total_counterexample:
  "genSearchFormat ''{{'' = ''{{''
   \<and> getSearchOutput exSearch ''alpine'' [''quay.io'']
        (exOpts\<lparr>limit := 1, format := genSearchFormat ''{{''\<rparr>) emptyFilterParams
       = Inr [exLine ''quay.io'' ''quay.io/alpine'' 0]
   \<and> generateSearchOutput exWriter exSearch ''alpine'' [''quay.io'']
        (exOpts\<lparr>limit := 1, format := genSearchFormat ''{{''\<rparr>) emptyFilterParams
       = Some (WriterFailure ''template: image:1: unclosed action'')"
proof -
  have f: "genSearchFormat ''{{'' = ''{{''" by (simp add: genSearchFormat_def)
  have c: "resultLimit (exOpts\<lparr>limit := 1, format := ''{{''\<rparr>) exTen = 1"
    by (simp add: resultLimit_eq exTen_length)
  have t: "take (Suc 0) exTen = [exResult\<lparr>StarCount := 0\<rparr>]"
    by (simp add: exTen_def)
  have a: "accepted (exOpts\<lparr>limit := 1, format := ''{{''\<rparr>) emptyFilterParams x" for x
    by (simp add: accepted_def exOpts_def)
  have l: "toSearchParams (exOpts\<lparr>limit := 1, format := ''{{''\<rparr>) ''quay.io'' ''quay.io''
             (exResult\<lparr>StarCount := 0\<rparr>) = exLine ''quay.io'' ''quay.io/alpine'' 0"
    by (simp add: toSearchParams_def exLine_def exResult_def exOpts_def displayName_def
          displayDescription_def Replace_def)
  have g: "getSearchOutput exSearch ''alpine'' [''quay.io'']
        (exOpts\<lparr>limit := 1, format := ''{{''\<rparr>) emptyFilterParams
       = Inr [exLine ''quay.io'' ''quay.io/alpine'' 0]"
    by (simp add: getSearchOutput_eq searchRecords_def registryRecords_def exSearch_def
          queryLimit_def c t a l registryIndex_quay)
  show ?thesis
    by (simp add: f g generateSearchOutput_def exWriter_def)
qed

end
